theory Spec2Isabelle
  imports Complex_Main "HOL-Library.AList"
begin

section \<open>Alpha15: an intraday breakout signal engine\<close>

text \<open>
  A shallow embedding of \<^verbatim>\<open>alpha15.py\<close> and of the part of \<^verbatim>\<open>masterlist.py\<close> that
  writes the instrument list. Prices are Python floats in the source; here they are
  real numbers, so every statement below is about the exact arithmetic that the floats
  approximate. Everything the program reads from outside (the clock, the market-data
  gateway, the symbols file) is an argument of the function that reads it. A gateway
  call that raises is the value \<open>None\<close> of its response.
\<close>

subsection \<open>Calendar dates\<close>

text \<open>
  A \<^verbatim>\<open>datetime.date\<close> is represented by its proleptic Gregorian ordinal
  (\<^verbatim>\<open>date.toordinal()\<close>): 1 is 0001-01-01 (\<^verbatim>\<open>date.min\<close>) and 3652059 is
  9999-12-31 (\<^verbatim>\<open>date.max\<close>). Arithmetic that leaves this range raises
  \<^verbatim>\<open>OverflowError\<close>.
\<close>

type_synonym date = int

datatype error = OverflowError

definition MINORDINAL :: int where
  "MINORDINAL = 1"

definition MAXORDINAL :: int where
  "MAXORDINAL = 3652059"

definition valid_date :: "date \<Rightarrow> bool" where
  "valid_date d = (MINORDINAL \<le> d \<and> d \<le> MAXORDINAL)"

text \<open>\<^verbatim>\<open>date - timedelta(days=n)\<close>\<close>

definition date_sub_days :: "date \<Rightarrow> int \<Rightarrow> error + date" where
  "date_sub_days d n =
     (if d - n < MINORDINAL \<or> MAXORDINAL < d - n then Inl OverflowError else Inr (d - n))"

text \<open>\<^verbatim>\<open>date.weekday()\<close>: Monday is 0 and Sunday is 6.\<close>

definition weekday :: "date \<Rightarrow> int" where
  "weekday d = (d + 6) mod 7"

definition DAYS_IN_MONTH :: "int list" where
  "DAYS_IN_MONTH = [-1, 31, 28, 31, 30, 31, 30, 31, 31, 30, 31, 30, 31]"

definition DAYS_BEFORE_MONTH :: "int list" where
  "DAYS_BEFORE_MONTH = [-1, 0, 31, 59, 90, 120, 151, 181, 212, 243, 273, 304, 334]"

text \<open>The year, month and day of an ordinal, computed as the \<^verbatim>\<open>datetime\<close> module does.\<close>

definition ord2ymd :: "int \<Rightarrow> int \<times> int \<times> int" where
  "ord2ymd n0 =
     (let n = n0 - 1;
          n400 = n div 146097; n = n mod 146097;
          year = n400 * 400 + 1;
          n100 = n div 36524; n = n mod 36524;
          n4 = n div 1461; n = n mod 1461;
          n1 = n div 365; n = n mod 365;
          year = year + n100 * 100 + n4 * 4 + n1
      in if n1 = 4 \<or> n100 = 4 then (year - 1, 12, 31)
         else
           let leapyear = (n1 = 3 \<and> (n4 \<noteq> 24 \<or> n100 = 3));
               month = (n + 50) div 32;
               preceding = DAYS_BEFORE_MONTH ! nat month + (if 2 < month \<and> leapyear then 1 else 0)
           in if n < preceding
              then let month = month - 1;
                       preceding = preceding
                         - (DAYS_IN_MONTH ! nat month + (if month = 2 \<and> leapyear then 1 else 0))
                   in (year, month, n - preceding + 1)
              else (year, month, n - preceding + 1))"

definition digit :: "int \<Rightarrow> char" where
  "digit k = ''0123456789'' ! nat (k mod 10)"

definition pad2 :: "int \<Rightarrow> string" where
  "pad2 k = [digit (k div 10), digit k]"

definition pad4 :: "int \<Rightarrow> string" where
  "pad4 k = [digit (k div 1000), digit (k div 100), digit (k div 10), digit k]"

text \<open>\<^verbatim>\<open>d.strftime('%Y-%m-%d')\<close>, the ISO form of a date, with a year of four digits.\<close>

definition strftime_Ymd :: "date \<Rightarrow> string" where
  "strftime_Ymd d = (case ord2ymd d of (y, m, dd) \<Rightarrow> pad4 y @ ''-'' @ pad2 m @ ''-'' @ pad2 dd)"

text \<open>
  \<^verbatim>\<open>get_last_trading_day\<close>: step back one day, then keep stepping back while the day is
  a Saturday or Sunday or its ISO string is in the holiday list. Each step back is a
  date subtraction, so the loop ends with \<^verbatim>\<open>OverflowError\<close> when it would leave
  \<^verbatim>\<open>date.min\<close>.
\<close>

function last_trading_day_loop :: "string list \<Rightarrow> date \<Rightarrow> error + date" where
  "last_trading_day_loop holidays last_day =
     (if 5 \<le> weekday last_day \<or> strftime_Ymd last_day \<in> set holidays
      then (case date_sub_days last_day 1 of
              Inl e \<Rightarrow> Inl e
            | Inr d \<Rightarrow> last_trading_day_loop holidays d)
      else Inr last_day)"
  by pat_completeness auto
termination
  by (relation "measure (\<lambda>(holidays, last_day). nat last_day)")
     (auto simp: date_sub_days_def MINORDINAL_def split: if_splits)

declare last_trading_day_loop.simps [simp del]

definition get_last_trading_day :: "date \<Rightarrow> string list option \<Rightarrow> error + date" where
  "get_last_trading_day current_date holidays_arg =
     (let holidays = (case holidays_arg of None \<Rightarrow> [] | Some hs \<Rightarrow> hs)
      in case date_sub_days current_date 1 of
           Inl e \<Rightarrow> Inl e
         | Inr last_day \<Rightarrow> last_trading_day_loop holidays last_day)"

subsection \<open>The clock and the market-data gateway\<close>

text \<open>A reading of \<^verbatim>\<open>datetime.now(ist)\<close>: its date, hour and minute.\<close>

record datetime =
  date_of :: date
  hour :: nat
  minute :: nat

record candle =
  c_open :: real
  c_high :: real
  c_low :: real
  c_close :: real

text \<open>
  The dictionary returned by \<^verbatim>\<open>client.history\<close>: its \<^verbatim>\<open>status\<close> and its
  \<^verbatim>\<open>data\<close> rows (the empty list when the key is missing or its value is empty:
  both are falsy).
\<close>

record history_response =
  status :: string
  data :: "candle list"

text \<open>
  The dictionary returned by \<^verbatim>\<open>client.quotes\<close>: \<open>quote_data\<close> is \<open>None\<close> when
  \<^verbatim>\<open>data\<close> is missing or empty, and \<open>Some None\<close> when it has no \<^verbatim>\<open>ltp\<close>.
\<close>

record quote_response =
  quote_status :: string
  quote_data :: "real option option"

text \<open>
  The OpenAlgo client. \<open>history gw symbol interval start_date end_date\<close> and
  \<open>quotes gw symbol\<close> are \<open>None\<close> when the call raises (the exchange is always
  \<^verbatim>\<open>NFO\<close>).
\<close>

record gateway =
  history :: "string \<Rightarrow> string \<Rightarrow> date \<Rightarrow> date \<Rightarrow> history_response option"
  quotes :: "string \<Rightarrow> quote_response option"

subsection \<open>Average true range\<close>

text \<open>A pandas column with missing values: \<open>None\<close> is NaN.\<close>

type_synonym series = "real option list"

text \<open>\<^verbatim>\<open>Series.shift(1)\<close>\<close>

definition shift1 :: "real list \<Rightarrow> series" where
  "shift1 xs = (if xs = [] then [] else None # map Some (butlast xs))"

text \<open>\<^verbatim>\<open>abs(a - s)\<close> on a column: NaN where \<open>s\<close> is NaN.\<close>

definition abs_diff :: "real list \<Rightarrow> series \<Rightarrow> series" where
  "abs_diff xs s = map2 (\<lambda>x p. map_option (\<lambda>pc. \<bar>x - pc\<bar>) p) xs s"

text \<open>The maximum of a value and a possibly missing one (\<^verbatim>\<open>max(axis=1)\<close> skips NaN).\<close>

definition max_skipna :: "real \<Rightarrow> real option \<Rightarrow> real" where
  "max_skipna a b = (case b of None \<Rightarrow> a | Some v \<Rightarrow> max a v)"

definition true_range :: "candle list \<Rightarrow> real list" where
  "true_range df =
     (let H_L = map (\<lambda>c. c_high c - c_low c) df;
          H_PC = abs_diff (map c_high df) (shift1 (map c_close df));
          L_PC = abs_diff (map c_low df) (shift1 (map c_close df))
      in map (\<lambda>(hl, hpc, lpc). max_skipna (max_skipna hl hpc) lpc) (zip H_L (zip H_PC L_PC)))"

definition mean :: "real list \<Rightarrow> real" where
  "mean xs = sum_list xs / real (length xs)"

text \<open>
  The smoothing loop \<^verbatim>\<open>for i in range(14, len(df))\<close>: \<open>trs\<close> are the true ranges
  from index 14 on, \<open>atr\<close> the list built so far.
\<close>

fun wilder_loop :: "real list \<Rightarrow> real list \<Rightarrow> real list" where
  "wilder_loop atr [] = atr"
| "wilder_loop atr (tr # trs) = wilder_loop (atr @ [(last atr * (14 - 1) + tr) / 14]) trs"

text \<open>
  Lines 140 to 151 of \<^verbatim>\<open>calculate_atr\<close>, on a frame of at least 15 rows. The list
  \<open>atr\<close> has one entry for each index from 13 on, so the last entry of the
  \<^verbatim>\<open>ATR\<close> column is the last entry of the list.
\<close>

definition atr_value :: "candle list \<Rightarrow> real" where
  "atr_value df =
     (let TR = true_range df;
          atr = wilder_loop [mean (take 14 TR)] (drop 14 TR)
      in last atr)"

text \<open>
  \<^verbatim>\<open>calculate_atr\<close>. The start of the 90-day query is computed before the
  \<^verbatim>\<open>try\<close>, so its \<^verbatim>\<open>OverflowError\<close> leaves the function; everything else
  ends in a value or in \<open>None\<close>.
\<close>

definition calculate_atr :: "gateway \<Rightarrow> datetime \<Rightarrow> string \<Rightarrow> error + real option" where
  "calculate_atr gw now symbol =
     (let today = date_of now
      in case date_sub_days today 90 of
           Inl e \<Rightarrow> Inl e
         | Inr from_date \<Rightarrow>
             Inr (case history gw symbol ''D'' from_date today of
                    None \<Rightarrow> None
                  | Some hist_response \<Rightarrow>
                      if status hist_response = ''success'' \<and> data hist_response \<noteq> []
                      then let df = data hist_response
                           in if length df < 15 then None else Some (atr_value df)
                      else None))"

subsection \<open>The TPO profile and its point of control\<close>

text \<open>
  \<^verbatim>\<open>np.arange(start, stop, step)\<close>: \<open>\<lceil>(stop - start) / step\<rceil>\<close> values
  \<open>start + k * step\<close>.
\<close>

definition np_arange :: "real \<Rightarrow> real \<Rightarrow> real \<Rightarrow> real list" where
  "np_arange start stop step =
     map (\<lambda>k. start + real k * step) [0..<nat \<lceil>(stop - start) / step\<rceil>]"

text \<open>\<^verbatim>\<open>Series.min()\<close> and \<^verbatim>\<open>Series.max()\<close> of a column that is not empty.\<close>

definition series_min :: "real list \<Rightarrow> real" where
  "series_min xs = fold min (tl xs) (hd xs)"

definition series_max :: "real list \<Rightarrow> real" where
  "series_max xs = fold max (tl xs) (hd xs)"

definition letters :: string where
  "letters = ''ABCDEFGHIJKLMNOPQRSTUVWXYZ'' @ ''abcdefghijklmnopqrstuvwxyz''"

definition letter_for :: "nat \<Rightarrow> char" where
  "letter_for i = (if i < length letters then letters ! i else CHR ''?'')"

text \<open>
  The two dictionaries \<^verbatim>\<open>market_profile\<close> and \<^verbatim>\<open>tpo_count\<close>, keyed by the price
  of a bin, in insertion order.
\<close>

type_synonym profile = "(real \<times> string) list \<times> (real \<times> nat) list"

text \<open>The inner loop \<^verbatim>\<open>for price in price_bins\<close> for one candle.\<close>

fun bins_loop :: "real \<Rightarrow> char \<Rightarrow> candle \<Rightarrow> real list \<Rightarrow> profile \<Rightarrow> profile" where
  "bins_loop tick_size_adj letter row [] prof = prof"
| "bins_loop tick_size_adj letter row (price # prices) (market_profile, tpo_count) =
     (let price_range_low = price;
          price_range_high = price + tick_size_adj
      in if c_low row \<le> price_range_high \<and> price_range_low \<le> c_high row
         then bins_loop tick_size_adj letter row prices
                (AList.map_entry price (\<lambda>tpo. tpo @ [letter]) market_profile,
                 AList.map_entry price Suc tpo_count)
         else bins_loop tick_size_adj letter row prices (market_profile, tpo_count))"

text \<open>The outer loop \<^verbatim>\<open>for i, row in df.iterrows()\<close>, from row \<open>i\<close> on.\<close>

fun rows_loop :: "real \<Rightarrow> real list \<Rightarrow> nat \<Rightarrow> candle list \<Rightarrow> profile \<Rightarrow> profile" where
  "rows_loop tick_size_adj price_bins i [] prof = prof"
| "rows_loop tick_size_adj price_bins i (row # rows) prof =
     rows_loop tick_size_adj price_bins (Suc i) rows
       (bins_loop tick_size_adj (letter_for i) row price_bins prof)"

definition price_bins_of :: "candle list \<Rightarrow> real \<Rightarrow> real list" where
  "price_bins_of df tick_size_adj =
     (let min_price = of_int \<lfloor>series_min (map c_low df) / tick_size_adj\<rfloor> * tick_size_adj;
          max_price = of_int \<lceil>series_max (map c_high df) / tick_size_adj\<rceil> * tick_size_adj
      in np_arange min_price (max_price + tick_size_adj) tick_size_adj)"

definition tpo_profile :: "candle list \<Rightarrow> real \<Rightarrow> profile" where
  "tpo_profile df tick_size_adj =
     (let price_bins = price_bins_of df tick_size_adj;
          market_profile = map (\<lambda>price. (price, [])) price_bins;
          tpo_count = map (\<lambda>price. (price, 0)) price_bins
      in rows_loop tick_size_adj price_bins 0 df (market_profile, tpo_count))"

record profile_row =
  Price :: real
  TPO :: string
  TPO_count :: nat

text \<open>
  The frame \<^verbatim>\<open>profile_df\<close> before its empty rows are dropped. Both dictionaries have
  the same keys, so the lookup in \<^verbatim>\<open>tpo_count\<close> always finds a count.
\<close>

definition profile_frame :: "profile \<Rightarrow> profile_row list" where
  "profile_frame prof =
     (case prof of (market_profile, tpo_count) \<Rightarrow>
        map (\<lambda>(price, tpo).
               \<lparr>Price = price, TPO = tpo,
                TPO_count = (case map_of tpo_count price of Some n \<Rightarrow> n | None \<Rightarrow> 0)\<rparr>)
            market_profile)"

text \<open>
  \<^verbatim>\<open>idxmax\<close> scans the rows in order and keeps the first row that holds the maximum:
  a later row replaces the best one so far only with a strictly greater count.
\<close>

fun idxmax :: "profile_row \<Rightarrow> profile_row list \<Rightarrow> profile_row" where
  "idxmax best [] = best"
| "idxmax best (r # rs) = idxmax (if TPO_count best < TPO_count r then r else best) rs"

text \<open>Lines 207 to 215: drop the empty rows, then take the price of the \<^verbatim>\<open>idxmax\<close> row.\<close>

definition point_of_control :: "profile_row list \<Rightarrow> real option" where
  "point_of_control rows =
     (let profile_df = filter (\<lambda>r. TPO r \<noteq> []) rows
      in case profile_df of
           [] \<Rightarrow> None
         | r # rs \<Rightarrow> Some (Price (idxmax r rs)))"

text \<open>
  The body of the \<^verbatim>\<open>try\<close> of \<^verbatim>\<open>calculate_poc\<close> on a frame of candles. With a bin
  width of zero the bounds of the bins are not numbers, \<^verbatim>\<open>np.arange\<close> raises, and
  the \<^verbatim>\<open>except\<close> clause returns \<open>None\<close>.
\<close>

definition poc_of_candles :: "candle list \<Rightarrow> real \<Rightarrow> real option" where
  "poc_of_candles df tick_size =
     (if df = [] then None
      else let tick_size_adj = tick_size * (5 / 100)
           in if tick_size_adj = 0 then None
              else point_of_control (profile_frame (tpo_profile df tick_size_adj)))"

text \<open>
  \<^verbatim>\<open>calculate_poc\<close>. The previous trading day is computed before the \<^verbatim>\<open>try\<close>, so
  an \<^verbatim>\<open>OverflowError\<close> of \<^verbatim>\<open>get_last_trading_day\<close> leaves the function.
\<close>

definition calculate_poc ::
  "gateway \<Rightarrow> datetime \<Rightarrow> string \<Rightarrow> real \<Rightarrow> string list option \<Rightarrow> error + real option" where
  "calculate_poc gw now symbol tick_size holidays =
     (let today = date_of now
      in case get_last_trading_day today holidays of
           Inl e \<Rightarrow> Inl e
         | Inr yesterday \<Rightarrow>
             Inr (case history gw symbol ''15m'' yesterday yesterday of
                    None \<Rightarrow> None
                  | Some hist_response \<Rightarrow>
                      if status hist_response = ''success'' \<and> data hist_response \<noteq> []
                      then poc_of_candles (data hist_response) tick_size
                      else None))"

subsection \<open>The breakout decision\<close>

datatype signal = BUY | SELL

text \<open>\<^verbatim>\<open>get_15min_candles\<close>: nothing is fetched before 9:30.\<close>

definition get_15min_candles :: "gateway \<Rightarrow> datetime \<Rightarrow> string \<Rightarrow> candle list option" where
  "get_15min_candles gw current_time symbol =
     (let today = date_of current_time
      in if hour current_time < 9 \<or> (hour current_time = 9 \<and> minute current_time < 30)
         then None
         else case history gw symbol ''15m'' today today of
                None \<Rightarrow> None
              | Some hist_response \<Rightarrow>
                  if status hist_response = ''success'' \<and> data hist_response \<noteq> []
                  then Some (data hist_response)
                  else None)"

definition get_ltp :: "gateway \<Rightarrow> string \<Rightarrow> real option" where
  "get_ltp gw symbol =
     (case quotes gw symbol of
        None \<Rightarrow> None
      | Some quote_response \<Rightarrow>
          (case quote_data quote_response of
             None \<Rightarrow> None
           | Some ltp \<Rightarrow> if quote_status quote_response = ''success'' then ltp else None))"

text \<open>
  Lines 321 to 360 of \<^verbatim>\<open>check_trading_conditions\<close>: the decision from the point of
  control, the ATR, the first candle and the last traded price. The Telegram message
  that goes out with a signal is not part of the model.
\<close>

definition breakout_signal :: "real \<Rightarrow> real \<Rightarrow> real \<Rightarrow> real \<Rightarrow> real \<Rightarrow> real \<Rightarrow> signal option" where
  "breakout_signal poc atr fc_open fc_high fc_low current_ltp =
     (let open_to_high = fc_high - fc_open;
          open_to_low = fc_open - fc_low
      in if poc < fc_open
         then (let buy_conditions = [poc < fc_open, open_to_high < atr, fc_high < current_ltp]
               in if list_all id buy_conditions then Some BUY else None)
         else if fc_open < poc
         then (let sell_conditions = [fc_open < poc, open_to_low < atr, current_ltp < fc_low]
               in if list_all id sell_conditions then Some SELL else None)
         else None)"

text \<open>
  The monitoring window of \<^verbatim>\<open>check_trading_conditions\<close>: 9:30 to 9:45.
\<close>

definition in_monitoring_window :: "datetime \<Rightarrow> bool" where
  "in_monitoring_window current_time =
     (hour current_time = 9 \<and> 30 \<le> minute current_time \<and> minute current_time \<le> 45)"

text \<open>
  The clock readings of one call of \<^verbatim>\<open>check_trading_conditions\<close>: its own, and those
  of the three functions it calls that read the clock.
\<close>

record clock_reads =
  now_check :: datetime
  now_poc :: datetime
  now_candles :: datetime
  now_atr :: datetime

text \<open>What \<^verbatim>\<open>check_trading_conditions\<close> writes to the log about the window.\<close>

datatype log_line = Outside_monitoring_window

text \<open>
  \<^verbatim>\<open>check_trading_conditions\<close>: the lines logged about the window, and the result
  (\<open>Inl\<close> when an exception leaves the function, \<open>Inr None\<close> for no signal). The
  window test guards a log line only: its \<^verbatim>\<open>return None\<close> is commented out.
\<close>

definition check_trading_conditions ::
  "gateway \<Rightarrow> clock_reads \<Rightarrow> string \<Rightarrow> real \<Rightarrow> string list option
     \<Rightarrow> log_line list \<times> (error + signal option)" where
  "check_trading_conditions gw clk symbol tick_size holidays =
     (let current_time = now_check clk;
          logged = (if \<not> in_monitoring_window current_time then [Outside_monitoring_window] else [])
      in (logged,
          case calculate_poc gw (now_poc clk) symbol tick_size holidays of
            Inl e \<Rightarrow> Inl e
          | Inr None \<Rightarrow> Inr None
          | Inr (Some poc) \<Rightarrow>
              (case get_15min_candles gw (now_candles clk) symbol of
                 None \<Rightarrow> Inr None
               | Some candles_15min \<Rightarrow>
                   if length candles_15min < 2 then Inr None
                   else (case calculate_atr gw (now_atr clk) symbol of
                           Inl e \<Rightarrow> Inl e
                         | Inr None \<Rightarrow> Inr None
                         | Inr (Some atr) \<Rightarrow>
                             (let first_candle = candles_15min ! 0;
                                  fc_open = c_open first_candle;
                                  fc_low = c_low first_candle;
                                  fc_high = c_high first_candle
                              in case get_ltp gw symbol of
                                   None \<Rightarrow> Inr None
                                 | Some current_ltp \<Rightarrow>
                                     Inr (breakout_signal poc atr fc_open fc_high fc_low
                                            current_ltp))))))"

subsection \<open>The instrument list\<close>

text \<open>An entry of the list that \<^verbatim>\<open>get_futures_symbols\<close> of \<^verbatim>\<open>masterlist.py\<close> builds.\<close>

record future =
  fut_symbol :: string
  fut_name :: string
  fut_token :: string
  fut_lotsize :: nat
  fut_tick_size :: real

text \<open>\<^verbatim>\<open>save_symbols\<close>: the text written to \<^verbatim>\<open>symbols.txt\<close>, one symbol on each line.\<close>

definition save_symbols :: "future list \<Rightarrow> string" where
  "save_symbols futures_list = concat (map (\<lambda>fut. fut_symbol fut @ [CHR 0x0A]) futures_list)"

text \<open>The lines of a text file, each with its newline, as iterating over the file gives them.\<close>

fun file_lines :: "string \<Rightarrow> string list" where
  "file_lines [] = []"
| "file_lines (c # cs) =
     (if c = CHR 0x0A then [c] # file_lines cs
      else (case file_lines cs of
              [] \<Rightarrow> [[c]]
            | l # ls \<Rightarrow> (c # l) # ls))"

text \<open>The ASCII characters that \<^verbatim>\<open>str.strip()\<close> removes.\<close>

definition is_space :: "char \<Rightarrow> bool" where
  "is_space c = (of_char c \<in> {9, 10, 11, 12, 13, 28, 29, 30, 31, 32 :: nat})"

definition strip :: "string \<Rightarrow> string" where
  "strip s = rev (dropWhile is_space (rev (dropWhile is_space s)))"

text \<open>\<^verbatim>\<open>load_symbols\<close> of \<^verbatim>\<open>alpha15.py\<close>, on the text of the symbols file.\<close>

definition load_symbols :: "string \<Rightarrow> string list" where
  "load_symbols file = map strip (filter (\<lambda>line. strip line \<noteq> []) (file_lines file))"

record item =
  symbol :: string
  tick_size :: real

text \<open>Line 372: every symbol gets the tick size 0.05.\<close>

definition symbol_data :: "string list \<Rightarrow> item list" where
  "symbol_data symbols = map (\<lambda>s. \<lparr>symbol = s, tick_size = 5 / 100\<rparr>) symbols"

subsection \<open>The scheduler\<close>

text \<open>
  What a call of \<^verbatim>\<open>check_trading_conditions\<close> gives the scheduler: an exception, or
  a returned signal (\<open>None\<close> for no signal).
\<close>

datatype outcome = Raised | Returned "signal option"

text \<open>
  The events of a run that are recorded, in the order they happen: a date
  rollover (the alerted set is cleared and the holidays are fetched again, with the
  list fetched), and a call of \<^verbatim>\<open>check_trading_conditions\<close> with its symbol, tick
  size, holiday list and outcome.
\<close>

datatype event =
  Rollover "string list"
| Called string real "string list" outcome

text \<open>
  The world around the scheduler. Both functions take the number of events so far, so
  that the same call can have a different outcome later in the run.
\<close>

record env =
  check :: "nat \<Rightarrow> string \<Rightarrow> real \<Rightarrow> string list \<Rightarrow> outcome"
  get_holidays :: "nat \<Rightarrow> string list"

text \<open>The local variables of \<^verbatim>\<open>signal_detection\<close> that live across cycles, and the events so far.\<close>

record session =
  alerted_symbols :: "string set"
  current_date :: date
  holidays :: "string list"
  trace :: "event list"

text \<open>
  One iteration of either \<^verbatim>\<open>for\<close> loop on an item that is not skipped: the call,
  and the update of the alerted set when a signal is returned.
\<close>

definition call_check :: "env \<Rightarrow> item \<Rightarrow> session \<Rightarrow> session \<times> outcome" where
  "call_check e it s =
     (let out = check e (length (trace s)) (symbol it) (tick_size it) (holidays s);
          s1 = s\<lparr>trace := trace s @ [Called (symbol it) (tick_size it) (holidays s) out]\<rparr>
      in case out of
           Returned (Some sig) \<Rightarrow>
             (s1\<lparr>alerted_symbols := insert (symbol it) (alerted_symbols s1)\<rparr>, out)
         | _ \<Rightarrow> (s1, out))"

text \<open>The primary pass over \<^verbatim>\<open>symbol_data\<close>, with the list of failed items.\<close>

fun primary_pass :: "env \<Rightarrow> item list \<Rightarrow> session \<times> item list \<Rightarrow> session \<times> item list" where
  "primary_pass e [] (s, failed_symbols) = (s, failed_symbols)"
| "primary_pass e (it # items) (s, failed_symbols) =
     (if symbol it \<in> alerted_symbols s then primary_pass e items (s, failed_symbols)
      else (case call_check e it s of
              (s1, Raised) \<Rightarrow> primary_pass e items (s1, failed_symbols @ [it])
            | (s1, Returned sig) \<Rightarrow> primary_pass e items (s1, failed_symbols)))"

text \<open>The retry pass over the failed items.\<close>

fun retry_pass :: "env \<Rightarrow> item list \<Rightarrow> session \<Rightarrow> session" where
  "retry_pass e [] s = s"
| "retry_pass e (it # items) s =
     (if symbol it \<in> alerted_symbols s then retry_pass e items s
      else retry_pass e items (fst (call_check e it s)))"

text \<open>Lines 382 to 387: the date check at the top of a cycle.\<close>

definition rollover_check :: "env \<Rightarrow> datetime \<Rightarrow> session \<Rightarrow> session" where
  "rollover_check e current_time s =
     (if current_date s < date_of current_time
      then (let hs = get_holidays e (length (trace s))
            in s\<lparr>alerted_symbols := {}, current_date := date_of current_time,
                 holidays := hs, trace := trace s @ [Rollover hs]\<rparr>)
      else s)"

text \<open>
  One iteration of \<^verbatim>\<open>while True\<close> at the clock reading \<open>current_time\<close>: the new
  state, and whether the loop is left by a \<^verbatim>\<open>break\<close>.
\<close>

definition cycle :: "env \<Rightarrow> string list \<Rightarrow> item list \<Rightarrow> datetime \<Rightarrow> session \<Rightarrow> session \<times> bool" where
  "cycle e symbols items current_time s0 =
     (let s = rollover_check e current_time s0
      in if 9 < hour current_time \<or> (hour current_time = 9 \<and> 45 < minute current_time)
         then (s, True)
         else if hour current_time < 9 \<or> (hour current_time = 9 \<and> minute current_time < 30)
         then (s, False)
         else (case primary_pass e items (s, []) of
                 (s1, failed_symbols) \<Rightarrow>
                   (let s2 = (if failed_symbols \<noteq> [] then retry_pass e failed_symbols s1 else s1)
                    in (s2, card (alerted_symbols s2) = length symbols))))"

text \<open>
  The loop over the clock readings of its iterations. The loop of the source has no
  bound of its own; a run is followed for as many iterations as there are readings.
\<close>

fun detection_loop :: "env \<Rightarrow> string list \<Rightarrow> item list \<Rightarrow> datetime list \<Rightarrow> session \<Rightarrow> session" where
  "detection_loop e symbols sd [] s = s"
| "detection_loop e symbols sd (current_time # readings) s =
     (case cycle e symbols sd current_time s of
        (s1, True) \<Rightarrow> s1
      | (s1, False) \<Rightarrow> detection_loop e symbols sd readings s1)"

text \<open>
  \<^verbatim>\<open>signal_detection\<close>: \<open>start\<close> is the clock reading before the loop, \<open>readings\<close> are
  the readings at the top of each iteration.
\<close>

definition signal_detection :: "env \<Rightarrow> string list \<Rightarrow> datetime \<Rightarrow> datetime list \<Rightarrow> session" where
  "signal_detection e symbols start readings =
     detection_loop e symbols (symbol_data symbols) readings
       \<lparr>alerted_symbols = {}, current_date = date_of start,
        holidays = get_holidays e 0, trace = []\<rparr>"

subsection \<open>Reading a trace\<close>

text \<open>The alerted set after an event, from the alerted set before it.\<close>

fun alerted_step :: "event \<Rightarrow> string set \<Rightarrow> string set" where
  "alerted_step (Rollover hs) A = {}"
| "alerted_step (Called sy ts hs (Returned (Some sg))) A = insert sy A"
| "alerted_step (Called sy ts hs out) A = A"

text \<open>No call in a sequence of events is for a symbol that is in the alerted set at that moment.\<close>

fun calls_fresh :: "string set \<Rightarrow> event list \<Rightarrow> bool" where
  "calls_fresh A [] = True"
| "calls_fresh A (Rollover hs # evs) = calls_fresh {} evs"
| "calls_fresh A (Called sy ts hs out # evs) =
     (sy \<notin> A \<and> calls_fresh (alerted_step (Called sy ts hs out) A) evs)"

text \<open>
  What a pass over the items \<open>its\<close> does to a state: it appends calls, each for one
  of the items and with the holiday list of the state, none for a symbol that is in
  the alerted set at that moment, and it adds the symbols with a signal to the alerted
  set.
\<close>

definition pass_calls :: "item set \<Rightarrow> session \<Rightarrow> event list \<Rightarrow> session \<Rightarrow> bool" where
  "pass_calls its s calls s' =
     (trace s' = trace s @ calls
      \<and> alerted_symbols s' = fold alerted_step calls (alerted_symbols s)
      \<and> calls_fresh (alerted_symbols s) calls
      \<and> (\<forall>ev\<in>set calls. \<exists>it\<in>its. \<exists>out. ev = Called (symbol it) (tick_size it) (holidays s) out)
      \<and> holidays s' = holidays s \<and> current_date s' = current_date s)"

text \<open>The alerted set of a state is the one that its trace gives, and no call was for an alerted symbol.\<close>

definition consistent :: "session \<Rightarrow> bool" where
  "consistent s =
     (calls_fresh {} (trace s) \<and> alerted_symbols s = fold alerted_step (trace s) {})"

text \<open>A call carries the symbol and the tick size of one of the items.\<close>

definition from_items :: "item set \<Rightarrow> event \<Rightarrow> bool" where
  "from_items its ev =
     (case ev of Called sy ts hs out \<Rightarrow> \<exists>it\<in>its. sy = symbol it \<and> ts = tick_size it
      | Rollover h \<Rightarrow> True)"

subsection \<open>Example data\<close>

text \<open>
  Daily candles: fourteen days with a true range of 3, then one with a true range of
  17, so that the mean of the first fourteen is 3 and one smoothing step gives 4.
\<close>

definition flat_day :: candle where
  "flat_day = \<lparr>c_open = 100, c_high = 103, c_low = 100, c_close = 100\<rparr>"

definition wide_day :: candle where
  "wide_day = \<lparr>c_open = 100, c_high = 117, c_low = 100, c_close = 100\<rparr>"

definition fifteen_days :: "candle list" where
  "fifteen_days = [flat_day, flat_day, flat_day, flat_day, flat_day, flat_day, flat_day,
     flat_day, flat_day, flat_day, flat_day, flat_day, flat_day, flat_day, wide_day]"

text \<open>
  The session of the day before, one 15-minute candle at 100, and the first two candles
  of today: the end-to-end scenario of the specification, with a point of control of
  100 and a first candle that opens at 102 between 101 and 105.
\<close>

definition previous_session :: "candle list" where
  "previous_session = [\<lparr>c_open = 100, c_high = 100, c_low = 100, c_close = 100\<rparr>]"

definition opening_candles :: "candle list" where
  "opening_candles = [\<lparr>c_open = 102, c_high = 105, c_low = 101, c_close = 104\<rparr>,
                      \<lparr>c_open = 104, c_high = 106, c_low = 103, c_close = 106\<rparr>]"

text \<open>
  A gateway on 2025-07-31 (ordinal 739463): the daily frame is given, the 15-minute
  frames are those above, and the last traded price is 106.
\<close>

definition market_gateway :: "candle list \<Rightarrow> gateway" where
  "market_gateway daily =
     \<lparr>history = (\<lambda>instrument interval start_date end_date.
         if interval = ''D'' then Some \<lparr>status = ''success'', data = daily\<rparr>
         else if start_date = 739463 then Some \<lparr>status = ''success'', data = opening_candles\<rparr>
         else Some \<lparr>status = ''success'', data = previous_session\<rparr>),
      quotes = (\<lambda>instrument. Some \<lparr>quote_status = ''success'', quote_data = Some (Some 106)\<rparr>)\<rparr>"

text \<open>A clock reading on 2025-07-31, a Thursday, and a call in which every reading is the same.\<close>

definition at_time :: "nat \<Rightarrow> nat \<Rightarrow> datetime" where
  "at_time h m = \<lparr>date_of = 739463, hour = h, minute = m\<rparr>"

definition all_at :: "datetime \<Rightarrow> clock_reads" where
  "all_at t = \<lparr>now_check = t, now_poc = t, now_candles = t, now_atr = t\<rparr>"

text \<open>The profile of the specification: three bins in ascending price with counts 2, 2 and 1.\<close>

definition tied_profile :: "profile_row list" where
  "tied_profile = [\<lparr>Price = 1, TPO = ''AB'', TPO_count = 2\<rparr>,
                   \<lparr>Price = 2, TPO = ''AB'', TPO_count = 2\<rparr>,
                   \<lparr>Price = 3, TPO = ''A'', TPO_count = 1\<rparr>]"


text \<open>
  A world in which the symbol A always gives a BUY and nothing else gives a signal, the
  day after 2025-07-31, a state with two alerted symbols, and a list of two futures
  with different tick sizes.
\<close>

definition alert_first :: env where
  "alert_first =
     \<lparr>check = (\<lambda>n sy ts hs. if sy = ''A'' then Returned (Some BUY) else Returned None),
      get_holidays = (\<lambda>n. [''2025-08-15''])\<rparr>"

definition next_day :: "nat \<Rightarrow> nat \<Rightarrow> datetime" where
  "next_day h m = \<lparr>date_of = 739464, hour = h, minute = m\<rparr>"

definition alerted_session :: session where
  "alerted_session =
     \<lparr>alerted_symbols = {''A'', ''B''}, current_date = 739463, holidays = [], trace = []\<rparr>"

definition two_futures :: "future list" where
  "two_futures =
     [\<lparr>fut_symbol = ''ACC31JUL25FUT'', fut_name = ''ACC'', fut_token = ''1'', fut_lotsize = 300,
        fut_tick_size = 5 / 100\<rparr>,
      \<lparr>fut_symbol = ''MCX31JUL25FUT'', fut_name = ''MCX'', fut_token = ''2'', fut_lotsize = 100,
        fut_tick_size = 1 / 10\<rparr>]"

section \<open>Properties\<close>

subsection \<open>The breakout decision\<close>

text \<open>
  Claim C1: the decision is BUY exactly when the open is above the point of control, the
  ATR exceeds high minus open and the price is above the high; it is SELL exactly when
  the open is below the point of control, the ATR exceeds open minus low and the price
  is below the low; it is no signal in every other case, and always when the open
  equals the point of control.
\<close>

theorem breakout_signal_cases:
  "(breakout_signal poc atr fc_open fc_high fc_low current_ltp = Some BUY)
     = (fc_open > poc \<and> atr > fc_high - fc_open \<and> current_ltp > fc_high)
   \<and> (breakout_signal poc atr fc_open fc_high fc_low current_ltp = Some SELL)
     = (fc_open < poc \<and> atr > fc_open - fc_low \<and> current_ltp < fc_low)
   \<and> (breakout_signal poc atr fc_open fc_high fc_low current_ltp = None)
     = (\<not> (fc_open > poc \<and> atr > fc_high - fc_open \<and> current_ltp > fc_high)
        \<and> \<not> (fc_open < poc \<and> atr > fc_open - fc_low \<and> current_ltp < fc_low))
   \<and> breakout_signal poc atr poc fc_high fc_low current_ltp = None"
  by (auto simp: breakout_signal_def Let_def)

text \<open>The two end-to-end scenarios of the specification, a SELL and an open at the point of control.\<close>

theorem breakout_signal_cases_witness:
  "breakout_signal 100 4 102 105 101 106 = Some BUY
   \<and> breakout_signal 100 4 102 105 101 104 = None
   \<and> breakout_signal 100 4 98 99 95 94 = Some SELL
   \<and> breakout_signal 100 4 100 105 95 106 = None"
  using breakout_signal_cases [of 100 4 102 105 101 106]
    breakout_signal_cases [of 100 4 102 105 101 104]
    breakout_signal_cases [of 100 4 98 99 95 94]
    breakout_signal_cases [of 100 4 100 105 95 106]
  by simp

subsection \<open>Average true range\<close>

lemma length_true_range: "length (true_range df) = length df"
  by (simp add: true_range_def shift1_def abs_diff_def Let_def)

lemma true_range_fifteen_days:
  "true_range fifteen_days = [3, 3, 3, 3, 3, 3, 3, 3, 3, 3, 3, 3, 3, 3, 17]"
  by (simp add: true_range_def fifteen_days_def flat_day_def wide_day_def shift1_def
      abs_diff_def max_skipna_def Let_def)

text \<open>With exactly 15 rows the smoothing loop runs once, for index 14.\<close>

lemma atr_value_15:
  assumes "length df = 15"
  shows "atr_value df = (mean (take 14 (true_range df)) * 13 + true_range df ! 14) / 14"
proof -
  have "length (true_range df) = 15"
    using assms by (simp add: length_true_range)
  then have "drop 14 (true_range df) = [true_range df ! 14]"
    by (metis Cons_nth_drop_Suc drop_all lessI numeral_le_iff order_refl
        eval_nat_numeral(3) Suc_eq_plus1 add.commute)
  then show ?thesis
    by (simp add: atr_value_def Let_def)
qed

lemma calculate_atr_success:
  assumes "date_sub_days (date_of now) 90 = Inr from_date"
    and "history gw instrument ''D'' from_date (date_of now) = Some r"
    and "status r = ''success''"
  shows "calculate_atr gw now instrument =
           Inr (if length (data r) < 15 then None else Some (atr_value (data r)))"
  using assms by (auto simp: calculate_atr_def Let_def)

text \<open>
  Claim C2 as stated, that 15 bars give the plain mean of the first 14 true ranges,
  fails: for fourteen days of true range 3 followed by one of true range 17 the mean is
  3 and the result is 4.
\<close>

theorem calculate_atr_boundary_counterexample:
  "length fifteen_days = 15
   \<and> calculate_atr (market_gateway fifteen_days) (at_time 9 35) ''ACC31JUL25FUT'' = Inr (Some 4)
   \<and> mean (take 14 (true_range fifteen_days)) = 3
   \<and> calculate_atr (market_gateway fifteen_days) (at_time 9 35) ''ACC31JUL25FUT''
        \<noteq> Inr (Some (mean (take 14 (true_range fifteen_days))))"
  by (simp add: calculate_atr_def date_sub_days_def MINORDINAL_def MAXORDINAL_def
      market_gateway_def at_time_def atr_value_def true_range_fifteen_days mean_def Let_def)
    (simp add: fifteen_days_def)

text \<open>
  Claim C2, amended: for a daily frame of exactly 15 bars \<^verbatim>\<open>calculate_atr\<close> returns the
  mean of the first 14 true ranges after one step of Wilder smoothing with the true
  range of the 15th bar, that is (13 * mean + TR[14]) / 14.
\<close>

theorem calculate_atr_boundary:
  assumes "date_sub_days (date_of now) 90 = Inr from_date"
    and "history gw instrument ''D'' from_date (date_of now) = Some r"
    and "status r = ''success''"
    and "length (data r) = 15"
  shows "calculate_atr gw now instrument =
           Inr (Some ((mean (take 14 (true_range (data r))) * (14 - 1)
                        + true_range (data r) ! 14) / 14))"
  using calculate_atr_success [OF assms(1-3)] atr_value_15 [OF assms(4)] assms(4) by simp

theorem calculate_atr_boundary_witness:
  "date_sub_days (date_of (at_time 9 35)) 90 = Inr 739373
   \<and> history (market_gateway fifteen_days) ''ACC31JUL25FUT'' ''D'' 739373 (date_of (at_time 9 35))
       = Some \<lparr>status = ''success'', data = fifteen_days\<rparr>
   \<and> length fifteen_days = 15
   \<and> calculate_atr (market_gateway fifteen_days) (at_time 9 35) ''ACC31JUL25FUT''
       = Inr (Some ((3 * 13 + 17) / 14))"
proof -
  have d: "date_sub_days (date_of (at_time 9 35)) 90 = Inr 739373"
    by (simp add: date_sub_days_def at_time_def MINORDINAL_def MAXORDINAL_def)
  have h: "history (market_gateway fifteen_days) ''ACC31JUL25FUT'' ''D'' 739373
             (date_of (at_time 9 35))
       = Some \<lparr>status = ''success'', data = fifteen_days\<rparr>"
    by (simp add: market_gateway_def)
  have l: "length (data \<lparr>status = ''success'', data = fifteen_days\<rparr>) = 15"
    by (simp add: fifteen_days_def)
  have m: "mean (take 14 (true_range fifteen_days)) = 3"
    by (simp add: true_range_fifteen_days mean_def)
  from calculate_atr_boundary [OF d h _ l] d h l m show ?thesis
    by (simp add: true_range_fifteen_days)
qed

subsection \<open>The example market, evaluated\<close>

lemmas date_eval = strftime_Ymd_def ord2ymd_def Let_def DAYS_BEFORE_MONTH_def DAYS_IN_MONTH_def
  pad2_def pad4_def digit_def weekday_def valid_date_def MINORDINAL_def MAXORDINAL_def
  date_sub_days_def

lemma price_bins_previous_session:
  "price_bins_of previous_session (1 / 400) = [100]"
  by (simp add: price_bins_of_def previous_session_def series_min_def series_max_def
      np_arange_def Let_def)

lemma tpo_profile_previous_session:
  "tpo_profile previous_session (1 / 400) = ([(100, ''A'')], [(100, 1)])"
  by (simp add: tpo_profile_def price_bins_previous_session Let_def)
     (simp add: previous_session_def letter_for_def letters_def)

lemma poc_previous_session: "poc_of_candles previous_session (1 / 20) = Some 100"
  by (simp add: poc_of_candles_def tpo_profile_previous_session profile_frame_def
      point_of_control_def Let_def)
     (simp add: previous_session_def)

lemma last_trading_day_example: "get_last_trading_day 739463 None = Inr 739462"
  by (simp add: get_last_trading_day_def last_trading_day_loop.simps date_eval)

lemma calculate_poc_example:
  "calculate_poc (market_gateway daily) (at_time h m) instrument (1 / 20) None = Inr (Some 100)"
  by (simp add: calculate_poc_def at_time_def last_trading_day_example market_gateway_def
      poc_previous_session Let_def)
     (simp add: previous_session_def)

lemma calculate_atr_example:
  "calculate_atr (market_gateway fifteen_days) (at_time h m) instrument = Inr (Some 4)"
  by (simp add: calculate_atr_def date_sub_days_def MINORDINAL_def MAXORDINAL_def
      market_gateway_def at_time_def atr_value_def true_range_fifteen_days mean_def Let_def)
    (simp add: fifteen_days_def)

lemma get_ltp_example: "get_ltp (market_gateway daily) instrument = Some 106"
  by (simp add: get_ltp_def market_gateway_def)

lemma get_15min_candles_example:
  "get_15min_candles (market_gateway daily) (at_time h m) instrument =
     (if h < 9 \<or> (h = 9 \<and> m < 30) then None else Some opening_candles)"
  by (simp add: get_15min_candles_def market_gateway_def at_time_def Let_def opening_candles_def)

lemma check_example:
  "check_trading_conditions (market_gateway fifteen_days) (all_at (at_time h m))
      instrument (1 / 20) None =
     (if in_monitoring_window (at_time h m) then [] else [Outside_monitoring_window],
      if h < 9 \<or> (h = 9 \<and> m < 30) then Inr None else Inr (Some BUY))"
  by (simp add: check_trading_conditions_def all_at_def calculate_poc_example
      calculate_atr_example get_ltp_example get_15min_candles_example Let_def)
     (simp add: opening_candles_def breakout_signal_def)

subsection \<open>Too few daily bars\<close>

text \<open>
  Claim C6: given a successfully fetched daily frame, \<^verbatim>\<open>calculate_atr\<close> returns
  \<open>None\<close> exactly when the frame has fewer than 15 bars and a number for every frame
  of 15 bars or more; the failure makes \<^verbatim>\<open>check_trading_conditions\<close> return no signal
  (the only exception that can leave it comes from the point of control, not from the
  ATR).
\<close>

theorem calculate_atr_insufficient_data:
  assumes "date_sub_days (date_of (now_atr clk)) 90 = Inr from_date"
    and "history gw instrument ''D'' from_date (date_of (now_atr clk)) = Some r"
    and "status r = ''success''"
  shows "(calculate_atr gw (now_atr clk) instrument = Inr None) = (length (data r) < 15)
     \<and> (calculate_atr gw (now_atr clk) instrument = Inr (Some (atr_value (data r))))
         = (15 \<le> length (data r))
     \<and> (length (data r) < 15 \<longrightarrow>
          snd (check_trading_conditions gw clk instrument tick hs) = Inr None
          \<or> (\<exists>e. calculate_poc gw (now_poc clk) instrument tick hs = Inl e))"
  using calculate_atr_success [OF assms]
  by (auto simp: check_trading_conditions_def Let_def split: sum.splits option.splits)

text \<open>Two daily bars: no ATR, and the instrument is skipped although the point of control is there.\<close>

theorem calculate_atr_insufficient_data_witness:
  "date_sub_days (date_of (now_atr (all_at (at_time 9 35)))) 90 = Inr 739373
   \<and> history (market_gateway [flat_day, flat_day]) ''ACC31JUL25FUT'' ''D'' 739373
        (date_of (now_atr (all_at (at_time 9 35))))
       = Some \<lparr>status = ''success'', data = [flat_day, flat_day]\<rparr>
   \<and> calculate_atr (market_gateway [flat_day, flat_day]) (now_atr (all_at (at_time 9 35)))
        ''ACC31JUL25FUT'' = Inr None
   \<and> calculate_poc (market_gateway [flat_day, flat_day]) (now_poc (all_at (at_time 9 35)))
        ''ACC31JUL25FUT'' (5 / 100) None = Inr (Some 100)
   \<and> snd (check_trading_conditions (market_gateway [flat_day, flat_day]) (all_at (at_time 9 35))
        ''ACC31JUL25FUT'' (5 / 100) None) = Inr None"
proof -
  have d: "date_sub_days (date_of (now_atr (all_at (at_time 9 35)))) 90 = Inr 739373"
    by (simp add: date_sub_days_def all_at_def at_time_def MINORDINAL_def MAXORDINAL_def)
  have h: "history (market_gateway [flat_day, flat_day]) ''ACC31JUL25FUT'' ''D'' 739373
        (date_of (now_atr (all_at (at_time 9 35))))
       = Some \<lparr>status = ''success'', data = [flat_day, flat_day]\<rparr>"
    by (simp add: market_gateway_def)
  have p: "calculate_poc (market_gateway [flat_day, flat_day]) (now_poc (all_at (at_time 9 35)))
        ''ACC31JUL25FUT'' (5 / 100) None = Inr (Some 100)"
    by (simp add: all_at_def calculate_poc_example)
  from calculate_atr_insufficient_data [OF d h, of "5 / 100" None] d h p show ?thesis
    by simp
qed

subsection \<open>The point of control\<close>

text \<open>\<^verbatim>\<open>idxmax\<close> returns the first row that holds the maximum count.\<close>

lemma idxmax_split:
  "\<exists>pre post. best # rs = pre @ idxmax best rs # post
     \<and> (\<forall>x\<in>set pre. TPO_count x < TPO_count (idxmax best rs))
     \<and> (\<forall>x\<in>set post. TPO_count x \<le> TPO_count (idxmax best rs))"
proof (induction rs arbitrary: best)
  case Nil
  have "[best] = [] @ idxmax best [] # []" by simp
  then show ?case by (metis empty_iff empty_set)
next
  case (Cons r rs)
  show ?case
  proof (cases "TPO_count best < TPO_count r")
    case True
    define m where "m = idxmax r rs"
    from True have res: "idxmax best (r # rs) = m"
      by (simp add: m_def)
    from Cons.IH [of r] obtain pre post where split: "r # rs = pre @ m # post"
      and pre: "\<forall>x\<in>set pre. TPO_count x < TPO_count m"
      and post: "\<forall>x\<in>set post. TPO_count x \<le> TPO_count m"
      unfolding m_def by blast
    have "TPO_count r \<le> TPO_count m"
    proof (cases pre)
      case Nil
      with split show ?thesis by simp
    next
      case (Cons p ps)
      with split have "p = r" by simp
      with pre Cons show ?thesis by auto
    qed
    with True have "TPO_count best < TPO_count m" by simp
    with pre have "\<forall>x\<in>set (best # pre). TPO_count x < TPO_count m" by simp
    moreover from split have "best # r # rs = (best # pre) @ m # post" by simp
    ultimately show ?thesis using post unfolding res by blast
  next
    case False
    define m where "m = idxmax best rs"
    from False have res: "idxmax best (r # rs) = m"
      by (simp add: m_def)
    from Cons.IH [of best] obtain pre post where split: "best # rs = pre @ m # post"
      and pre: "\<forall>x\<in>set pre. TPO_count x < TPO_count m"
      and post: "\<forall>x\<in>set post. TPO_count x \<le> TPO_count m"
      unfolding m_def by blast
    show ?thesis
    proof (cases pre)
      case Nil
      with split have eq: "m = best" "post = rs" by simp_all
      with False post have "\<forall>x\<in>set (r # rs). TPO_count x \<le> TPO_count m"
        by auto
      moreover from eq have "best # r # rs = [] @ m # (r # rs)" by simp
      ultimately show ?thesis unfolding res by (metis empty_iff empty_set)
    next
      case (Cons p ps)
      with split have p: "p = best" "rs = ps @ m # post" by simp_all
      with pre Cons have "TPO_count best < TPO_count m" by auto
      with False have "TPO_count r < TPO_count m" by simp
      with pre Cons p have "\<forall>x\<in>set (best # r # ps). TPO_count x < TPO_count m"
        by auto
      moreover from p have "best # r # rs = (best # r # ps) @ m # post" by simp
      ultimately show ?thesis using post unfolding res by blast
    qed
  qed
qed

lemma filter_split:
  "filter P xs = ys @ z # zs \<Longrightarrow>
     \<exists>us vs. xs = us @ z # vs \<and> filter P us = ys \<and> filter P vs = zs"
proof (induction xs arbitrary: ys)
  case Nil
  then show ?case by simp
next
  case (Cons x xs)
  show ?case
  proof (cases "P x")
    case False
    with Cons.prems have "filter P xs = ys @ z # zs" by simp
    from Cons.IH [OF this] obtain us vs
      where "xs = us @ z # vs" "filter P us = ys" "filter P vs = zs" by blast
    with False have "x # xs = (x # us) @ z # vs \<and> filter P (x # us) = ys \<and> filter P vs = zs"
      by simp
    then show ?thesis by blast
  next
    case True
    show ?thesis
    proof (cases ys)
      case Nil
      with True Cons.prems have "x # xs = [] @ z # xs \<and> filter P [] = ys \<and> filter P xs = zs"
        by simp
      then show ?thesis by blast
    next
      case (Cons y ys')
      with True Cons.prems have xy: "x = y" and "filter P xs = ys' @ z # zs" by simp_all
      from Cons.IH [OF this(2)] obtain us vs
        where "xs = us @ z # vs" "filter P us = ys'" "filter P vs = zs" by blast
      with True xy Cons have "x # xs = (x # us) @ z # vs \<and> filter P (x # us) = ys
          \<and> filter P vs = zs"
        by simp
      then show ?thesis by blast
    qed
  qed
qed

lemma point_of_control_split:
  assumes "\<exists>r\<in>set rows. TPO r \<noteq> []"
  shows "\<exists>pre r post. rows = pre @ r # post \<and> point_of_control rows = Some (Price r)
           \<and> TPO r \<noteq> []
           \<and> (\<forall>x\<in>set pre. TPO x \<noteq> [] \<longrightarrow> TPO_count x < TPO_count r)
           \<and> (\<forall>x\<in>set post. TPO x \<noteq> [] \<longrightarrow> TPO_count x \<le> TPO_count r)"
proof -
  let ?P = "\<lambda>r. TPO r \<noteq> []"
  from assms have "filter ?P rows \<noteq> []"
    by (simp add: filter_empty_conv)
  then obtain b rs where f: "filter ?P rows = b # rs"
    by (cases "filter ?P rows") auto
  let ?m = "idxmax b rs"
  from idxmax_split [of b rs] obtain pre post where split: "b # rs = pre @ ?m # post"
    and pre: "\<forall>x\<in>set pre. TPO_count x < TPO_count ?m"
    and post: "\<forall>x\<in>set post. TPO_count x \<le> TPO_count ?m"
    by blast
  from f split have "filter ?P rows = pre @ ?m # post" by simp
  from filter_split [OF this] obtain us vs
    where rows: "rows = us @ ?m # vs" and us: "filter ?P us = pre" and vs: "filter ?P vs = post"
    by blast
  have "?m \<in> set (filter ?P rows)"
    using f split by simp
  then have "TPO ?m \<noteq> []" by simp
  moreover from f have "point_of_control rows = Some (Price ?m)"
    by (simp add: point_of_control_def)
  moreover from us pre have "\<forall>x\<in>set us. TPO x \<noteq> [] \<longrightarrow> TPO_count x < TPO_count ?m"
    by auto
  moreover from vs post have "\<forall>x\<in>set vs. TPO x \<noteq> [] \<longrightarrow> TPO_count x \<le> TPO_count ?m"
    by auto
  ultimately show ?thesis using rows by blast
qed


lemma map_entry_keys: "map fst (AList.map_entry k f xs) = map fst xs"
  by (induction xs) auto


lemma bins_loop_keys:
  "map fst (fst (bins_loop adj l row prices prof)) = map fst (fst prof)"
proof (induction prices arbitrary: prof)
  case Nil
  show ?case by simp
next
  case (Cons price prices)
  obtain mp tc where prof: "prof = (mp, tc)" by (cases prof)
  show ?case
    unfolding prof by (simp add: Cons.IH map_entry_keys Let_def)
qed


lemma rows_loop_keys:
  "map fst (fst (rows_loop adj bins i rows prof)) = map fst (fst prof)"
  by (induction rows arbitrary: i prof) (simp_all add: bins_loop_keys)


lemma tpo_profile_keys:
  "map fst (fst (tpo_profile df adj)) = price_bins_of df adj"
  by (simp add: tpo_profile_def Let_def rows_loop_keys comp_def)


lemma profile_frame_prices: "map Price (profile_frame prof) = map fst (fst prof)"
  by (cases prof) (simp add: profile_frame_def comp_def case_prod_beta)


lemma np_arange_ascending:
  "0 < step \<Longrightarrow> sorted_wrt (<) (np_arange start stop step)"
  unfolding np_arange_def sorted_wrt_map
  by (rule sorted_wrt_mono_rel [OF _ sorted_wrt_upt]) simp


lemma profile_frame_ascending:
  "0 < adj \<Longrightarrow> sorted_wrt (<) (map Price (profile_frame (tpo_profile df adj)))"
  by (simp add: profile_frame_prices tpo_profile_keys price_bins_of_def Let_def
      np_arange_ascending)

text \<open>In the profile that is built, the count of a bin is the number of its labels.\<close>

lemma map_entry_counts:
  "map (\<lambda>(p, s). (p, length s)) (AList.map_entry k (\<lambda>tpo. tpo @ [l]) mp)
     = AList.map_entry k Suc (map (\<lambda>(p, s). (p, length s)) mp)"
  by (induction mp) auto

lemma bins_loop_counts:
  "snd prof = map (\<lambda>(p, s). (p, length s)) (fst prof) \<Longrightarrow>
     snd (bins_loop adj l row prices prof)
       = map (\<lambda>(p, s). (p, length s)) (fst (bins_loop adj l row prices prof))"
proof (induction prices arbitrary: prof)
  case Nil
  then show ?case by simp
next
  case (Cons price prices)
  obtain mp tc where prof: "prof = (mp, tc)" by (cases prof)
  with Cons.prems have tc: "tc = map (\<lambda>(p, s). (p, length s)) mp" by simp
  show ?case
    unfolding prof by (simp add: Let_def Cons.IH tc map_entry_counts)
qed

lemma rows_loop_counts:
  "snd prof = map (\<lambda>(p, s). (p, length s)) (fst prof) \<Longrightarrow>
     snd (rows_loop adj bins i rows prof)
       = map (\<lambda>(p, s). (p, length s)) (fst (rows_loop adj bins i rows prof))"
  by (induction rows arbitrary: i prof) (simp_all add: bins_loop_counts)

lemma tpo_profile_counts:
  "snd (tpo_profile df adj) = map (\<lambda>(p, s). (p, length s)) (fst (tpo_profile df adj))"
  unfolding tpo_profile_def Let_def by (rule rows_loop_counts) (simp add: comp_def)

lemma profile_frame_counts:
  assumes "0 < adj" and "r \<in> set (profile_frame (tpo_profile df adj))"
  shows "TPO_count r = length (TPO r)"
proof -
  obtain mp tc where prof: "tpo_profile df adj = (mp, tc)" by (cases "tpo_profile df adj")
  from tpo_profile_counts [of df adj] prof have tc: "tc = map (\<lambda>(p, s). (p, length s)) mp"
    by simp
  from profile_frame_ascending [OF assms(1), of df] prof
  have "sorted_wrt (<) (map fst mp)" by (simp add: profile_frame_prices)
  then have dist: "distinct (map fst mp)"
    by (simp add: strict_sorted_iff)
  from assms(2) prof obtain p s where ps: "(p, s) \<in> set mp"
    and r: "r = \<lparr>Price = p, TPO = s, TPO_count = (case map_of tc p of Some n \<Rightarrow> n | None \<Rightarrow> 0)\<rparr>"
    by (auto simp: profile_frame_def)
  from ps have "(p, length s) \<in> set tc" by (force simp: tc)
  moreover from dist have "distinct (map fst tc)" by (simp add: tc comp_def case_prod_beta)
  ultimately have "map_of tc p = Some (length s)" by simp
  with r show ?thesis by simp
qed


lemma series_max_Max: "xs \<noteq> [] \<Longrightarrow> series_max xs = Max (set xs)"
  by (cases xs) (simp_all add: series_max_def Max.set_eq_fold [symmetric] del: set_simps)


text \<open>
  Claim C3: for a profile with a bin that is not empty, the point of control is the
  price of the first row, among those that are not empty, with the maximum count: every
  such row before it has a strictly smaller count and every one after it has a count
  that is not greater. When the rows are in ascending order of price, it is the lowest
  price among the rows with the maximum count. The profile that \<^verbatim>\<open>calculate_poc\<close>
  builds for a positive bin width is in ascending order of price, and the count of each
  of its bins is the number of its labels, so that its empty bins are those with a
  count of zero.
\<close>

theorem point_of_control_lowest_max:
  assumes "\<exists>r\<in>set rows. TPO r \<noteq> []"
  shows "(\<exists>pre r post. rows = pre @ r # post \<and> point_of_control rows = Some (Price r)
           \<and> TPO r \<noteq> []
           \<and> (\<forall>x\<in>set pre. TPO x \<noteq> [] \<longrightarrow> TPO_count x < TPO_count r)
           \<and> (\<forall>x\<in>set post. TPO x \<noteq> [] \<longrightarrow> TPO_count x \<le> TPO_count r)
           \<and> (sorted_wrt (<) (map Price rows) \<longrightarrow>
                (\<forall>x\<in>set rows. TPO x \<noteq> [] \<and> TPO_count r \<le> TPO_count x \<longrightarrow> Price r \<le> Price x)))
       \<and> (0 < tick_size_adj \<longrightarrow>
            sorted_wrt (<) (map Price (profile_frame (tpo_profile df tick_size_adj)))
            \<and> (\<forall>r\<in>set (profile_frame (tpo_profile df tick_size_adj)).
                  TPO_count r = length (TPO r)))"
proof -
  from point_of_control_split [OF assms] obtain pre r post
    where rows: "rows = pre @ r # post" and poc: "point_of_control rows = Some (Price r)"
      and r: "TPO r \<noteq> []"
      and pre: "\<forall>x\<in>set pre. TPO x \<noteq> [] \<longrightarrow> TPO_count x < TPO_count r"
      and post: "\<forall>x\<in>set post. TPO x \<noteq> [] \<longrightarrow> TPO_count x \<le> TPO_count r"
    by blast
  have "\<forall>x\<in>set rows. TPO x \<noteq> [] \<and> TPO_count r \<le> TPO_count x \<longrightarrow> Price r \<le> Price x"
    if asc: "sorted_wrt (<) (map Price rows)"
  proof (intro ballI impI)
    fix x assume x: "x \<in> set rows" and "TPO x \<noteq> [] \<and> TPO_count r \<le> TPO_count x"
    with pre have "x \<notin> set pre" by auto
    with x rows have "x = r \<or> x \<in> set post" by auto
    moreover from asc rows have "\<forall>y\<in>set post. Price r < Price y"
      by (simp add: sorted_wrt_append)
    ultimately show "Price r \<le> Price x" by auto
  qed
  with rows poc r pre post have first: "\<exists>pre r post. rows = pre @ r # post
           \<and> point_of_control rows = Some (Price r) \<and> TPO r \<noteq> []
           \<and> (\<forall>x\<in>set pre. TPO x \<noteq> [] \<longrightarrow> TPO_count x < TPO_count r)
           \<and> (\<forall>x\<in>set post. TPO x \<noteq> [] \<longrightarrow> TPO_count x \<le> TPO_count r)
           \<and> (sorted_wrt (<) (map Price rows) \<longrightarrow>
                (\<forall>x\<in>set rows. TPO x \<noteq> [] \<and> TPO_count r \<le> TPO_count x \<longrightarrow> Price r \<le> Price x))"
    by blast
  have "sorted_wrt (<) (map Price (profile_frame (tpo_profile df tick_size_adj)))
        \<and> (\<forall>r\<in>set (profile_frame (tpo_profile df tick_size_adj)).
              TPO_count r = length (TPO r))"
    if "0 < tick_size_adj"
    using that by (simp add: profile_frame_ascending profile_frame_counts)
  with first show ?thesis
    by blast
qed

text \<open>The profile of the specification: counts 2, 2 and 1 give the first price, not the second.\<close>

theorem point_of_control_lowest_max_witness:
  "TPO (tied_profile ! 0) \<noteq> [] \<and> sorted_wrt (<) (map Price tied_profile)
   \<and> map TPO_count tied_profile = [2, 2, 1]
   \<and> point_of_control tied_profile = Some (Price (tied_profile ! 0))
   \<and> point_of_control tied_profile \<noteq> Some (Price (tied_profile ! 1))"
proof -
  have "\<exists>r\<in>set tied_profile. TPO r \<noteq> []"
    by (simp add: tied_profile_def)
  from point_of_control_lowest_max [OF this] show ?thesis
    by (simp add: tied_profile_def point_of_control_def)
qed







subsection \<open>The last trading day\<close>










subsection \<open>The scheduler\<close>

lemma calls_fresh_Cons: "calls_fresh A (ev # evs) =
  ((case ev of Called sy ts hs out \<Rightarrow> sy \<notin> A | Rollover hs \<Rightarrow> True)
   \<and> calls_fresh (alerted_step ev A) evs)"
  by (cases ev) simp_all

lemma calls_fresh_append:
  "calls_fresh A (xs @ ys) = (calls_fresh A xs \<and> calls_fresh (fold alerted_step xs A) ys)"
  by (induction xs arbitrary: A) (auto simp: calls_fresh_Cons)

lemma alerted_kept:
  "\<forall>h. Rollover h \<notin> set ys \<Longrightarrow> sy \<in> A \<Longrightarrow> sy \<in> fold alerted_step ys A"
proof (induction ys arbitrary: A)
  case Nil
  then show ?case by simp
next
  case (Cons ev ys)
  from Cons.prems have "sy \<in> alerted_step ev A"
    by (cases "(ev, A)" rule: alerted_step.cases) auto
  with Cons show ?case by simp
qed

lemma calls_fresh_rollover_between:
  assumes "calls_fresh A (xs @ Called sy ts hs (Returned (Some sg)) # ys @ Called sy ts' hs' out # zs)"
  shows "\<exists>h. Rollover h \<in> set ys"
proof (rule ccontr)
  assume "\<not> (\<exists>h. Rollover h \<in> set ys)"
  then have no: "\<forall>h. Rollover h \<notin> set ys" by simp
  define B where "B = insert sy (fold alerted_step xs A)"
  from assms have "calls_fresh B (ys @ Called sy ts' hs' out # zs)"
    by (simp add: calls_fresh_append B_def)
  then have "sy \<notin> fold alerted_step ys B"
    by (simp add: calls_fresh_append)
  moreover have "sy \<in> fold alerted_step ys B"
    by (rule alerted_kept [OF no]) (simp add: B_def)
  ultimately show False by simp
qed

lemma pass_calls_refl: "pass_calls its s [] s"
  by (simp add: pass_calls_def)

lemma pass_calls_trans:
  "pass_calls its s c1 s1 \<Longrightarrow> pass_calls its s1 c2 s2 \<Longrightarrow> pass_calls its s (c1 @ c2) s2"
  by (auto simp: pass_calls_def calls_fresh_append)

lemma pass_calls_mono: "pass_calls its s calls s' \<Longrightarrow> its \<subseteq> its' \<Longrightarrow> pass_calls its' s calls s'"
  unfolding pass_calls_def by blast

lemma call_check_calls:
  assumes "symbol it \<notin> alerted_symbols s" and "it \<in> its"
  shows "\<exists>ev. pass_calls its s [ev] (fst (call_check e it s))"
proof -
  define out where "out = check e (length (trace s)) (symbol it) (tick_size it) (holidays s)"
  have "pass_calls its s [Called (symbol it) (tick_size it) (holidays s) out]
          (fst (call_check e it s))"
  proof (cases out)
    case Raised
    with assms show ?thesis
      by (auto simp: pass_calls_def call_check_def Let_def out_def [symmetric])
  next
    case (Returned sg)
    with assms show ?thesis
      by (cases sg) (auto simp: pass_calls_def call_check_def Let_def out_def [symmetric])
  qed
  then show ?thesis ..
qed

lemma primary_pass_calls:
  "\<exists>calls. pass_calls (set items) s calls (fst (primary_pass e items (s, failed)))"
  and primary_pass_failed:
  "set (snd (primary_pass e items (s, failed))) \<subseteq> set failed \<union> set items"
proof (induction items arbitrary: s failed)
  case Nil
  {
    case 1
    show ?case using pass_calls_refl [of "{}" s] by auto
  next
    case 2
    show ?case by simp
  }
next
  case (Cons it items)
  {
    case 1
    show ?case
    proof (cases "symbol it \<in> alerted_symbols s")
      case True
      from Cons.IH(1) [of s failed] obtain calls
        where "pass_calls (set items) s calls (fst (primary_pass e items (s, failed)))" ..
      then have "pass_calls (set (it # items)) s calls (fst (primary_pass e items (s, failed)))"
        by (rule pass_calls_mono) auto
      with True show ?thesis by auto
    next
      case False
      obtain s1 out where cc: "call_check e it s = (s1, out)" by (cases "call_check e it s")
      from call_check_calls [OF False, of "set (it # items)" e] cc obtain ev
        where one: "pass_calls (set (it # items)) s [ev] s1" by auto
      define failed1 where "failed1 = (case out of Raised \<Rightarrow> failed @ [it] | Returned sg \<Rightarrow> failed)"
      from False cc have res: "primary_pass e (it # items) (s, failed)
          = primary_pass e items (s1, failed1)"
        by (cases out) (simp_all add: failed1_def)
      from Cons.IH(1) [of s1 failed1] obtain calls
        where "pass_calls (set items) s1 calls (fst (primary_pass e items (s1, failed1)))" ..
      then have "pass_calls (set (it # items)) s1 calls (fst (primary_pass e items (s1, failed1)))"
        by (rule pass_calls_mono) auto
      from pass_calls_trans [OF one this] res show ?thesis by auto
    qed
  next
    case 2
    show ?case
    proof (cases "symbol it \<in> alerted_symbols s")
      case True
      with Cons.IH(2) [of s failed] show ?thesis by auto
    next
      case False
      obtain s1 out where cc: "call_check e it s = (s1, out)" by (cases "call_check e it s")
      define failed1 where "failed1 = (case out of Raised \<Rightarrow> failed @ [it] | Returned sg \<Rightarrow> failed)"
      from False cc have res: "primary_pass e (it # items) (s, failed)
          = primary_pass e items (s1, failed1)"
        by (cases out) (simp_all add: failed1_def)
      have "set failed1 \<subseteq> set failed \<union> {it}"
        by (cases out) (auto simp: failed1_def)
      with Cons.IH(2) [of s1 failed1] res show ?thesis by auto
    qed
  }
qed

lemma retry_pass_calls:
  "\<exists>calls. pass_calls (set items) s calls (retry_pass e items s)"
proof (induction items arbitrary: s)
  case Nil
  show ?case using pass_calls_refl [of "{}" s] by auto
next
  case (Cons it items)
  show ?case
  proof (cases "symbol it \<in> alerted_symbols s")
    case True
    from Cons.IH [of s] obtain calls
      where "pass_calls (set items) s calls (retry_pass e items s)" ..
    then have "pass_calls (set (it # items)) s calls (retry_pass e items s)"
      by (rule pass_calls_mono) auto
    with True show ?thesis by auto
  next
    case False
    from call_check_calls [OF False, of "set (it # items)" e] obtain ev
      where one: "pass_calls (set (it # items)) s [ev] (fst (call_check e it s))" by auto
    from Cons.IH [of "fst (call_check e it s)"] obtain calls
      where "pass_calls (set items) (fst (call_check e it s)) calls
               (retry_pass e items (fst (call_check e it s)))" ..
    then have "pass_calls (set (it # items)) (fst (call_check e it s)) calls
               (retry_pass e items (fst (call_check e it s)))"
      by (rule pass_calls_mono) auto
    from pass_calls_trans [OF one this] False show ?thesis by auto
  qed
qed

lemma cycle_calls:
  "\<exists>calls. pass_calls (set items) (rollover_check e t s) calls (fst (cycle e symbols items t s))"
proof -
  define s0 where "s0 = rollover_check e t s"
  obtain s1 failed where pp: "primary_pass e items (s0, []) = (s1, failed)"
    by (cases "primary_pass e items (s0, [])")
  from primary_pass_calls [of items s0 e "[]"] pp obtain c1
    where c1: "pass_calls (set items) s0 c1 s1" by auto
  from primary_pass_failed [of e items s0 "[]"] pp have sub: "set failed \<subseteq> set items" by simp
  from retry_pass_calls [of failed s1 e] obtain c2
    where "pass_calls (set failed) s1 c2 (retry_pass e failed s1)" ..
  with sub have c2: "pass_calls (set items) s1 c2 (retry_pass e failed s1)"
    by (rule pass_calls_mono [rotated])
  have "pass_calls (set items) s0 [] s0" by (rule pass_calls_refl)
  moreover have "pass_calls (set items) s0 c1 s1" by (rule c1)
  moreover from pass_calls_trans [OF c1 c2]
  have "pass_calls (set items) s0 (c1 @ c2) (retry_pass e failed s1)" .
  ultimately show ?thesis
    unfolding cycle_def s0_def [symmetric] Let_def pp
    by (auto split: if_splits)
qed

lemma consistent_rollover_check: "consistent s \<Longrightarrow> consistent (rollover_check e t s)"
  by (simp add: consistent_def rollover_check_def Let_def calls_fresh_append)

lemma consistent_pass_calls: "consistent s \<Longrightarrow> pass_calls its s calls s' \<Longrightarrow> consistent s'"
  by (simp add: consistent_def pass_calls_def calls_fresh_append)

lemma consistent_cycle: "consistent s \<Longrightarrow> consistent (fst (cycle e symbols items t s))"
  using cycle_calls [of items e t s symbols] consistent_rollover_check [of s e t]
  by (blast intro: consistent_pass_calls)

lemma consistent_detection_loop:
  "consistent s \<Longrightarrow> consistent (detection_loop e symbols items readings s)"
proof (induction readings arbitrary: s)
  case Nil
  then show ?case by simp
next
  case (Cons t readings)
  obtain s1 b where c: "cycle e symbols items t s = (s1, b)"
    by (cases "cycle e symbols items t s")
  with consistent_cycle [OF Cons.prems, of e symbols items t] have "consistent s1" by simp
  with Cons.IH [of s1] c show ?case by (cases b) simp_all
qed

lemma consistent_signal_detection: "consistent (signal_detection e symbols start readings)"
  unfolding signal_detection_def
  by (rule consistent_detection_loop) (simp add: consistent_def)

lemma pass_calls_no_rollover:
  "pass_calls its s calls s' \<Longrightarrow> \<forall>h. Rollover h \<notin> set calls"
  by (auto simp: pass_calls_def)

lemma calls_fresh_not_called:
  "calls_fresh A calls \<Longrightarrow> \<forall>h. Rollover h \<notin> set calls \<Longrightarrow> sy \<in> A
     \<Longrightarrow> Called sy ts hs out \<notin> set calls"
proof (induction calls arbitrary: A)
  case Nil
  show ?case by simp
next
  case (Cons ev calls)
  from Cons.prems(2) obtain sy' ts' hs' out' where ev: "ev = Called sy' ts' hs' out'"
    by (cases ev) auto
  with Cons.prems have fresh: "sy' \<notin> A" "calls_fresh (alerted_step ev A) calls"
    by simp_all
  from Cons.prems(2,3) have "sy \<in> alerted_step ev A"
    using alerted_kept [of "[ev]" sy A] by simp
  with Cons.IH [OF fresh(2)] Cons.prems(2) have "Called sy ts hs out \<notin> set calls"
    by simp
  with fresh(1) Cons.prems(3) ev show ?case by auto
qed

text \<open>
  Claim C5: in a run of the scheduler, after a call of \<^verbatim>\<open>check_trading_conditions\<close>
  that returned a signal for a symbol (which puts the symbol into the alerted set),
  every later call for that symbol, in a primary pass or in a retry pass, has a date
  rollover between the two. And in one cycle from any state, no symbol that is in the
  alerted set after the date check at the top of the cycle is called in either pass.
\<close>

theorem no_check_while_alerted:
  "(trace (signal_detection e symbols start readings) =
      xs @ Called sy ts hs (Returned (Some sg)) # ys @ Called sy ts' hs' out # zs
    \<longrightarrow> (\<exists>h. Rollover h \<in> set ys))
   \<and> (\<exists>calls. trace (fst (cycle e symbols items t s)) = trace (rollover_check e t s) @ calls
         \<and> (\<forall>a\<in>alerted_symbols (rollover_check e t s). \<forall>ts hs out.
               Called a ts hs out \<notin> set calls))"
proof (intro conjI impI)
  assume "trace (signal_detection e symbols start readings) =
      xs @ Called sy ts hs (Returned (Some sg)) # ys @ Called sy ts' hs' out # zs"
  with consistent_signal_detection [of e symbols start readings]
  have "calls_fresh {} (xs @ Called sy ts hs (Returned (Some sg)) # ys @ Called sy ts' hs' out # zs)"
    by (simp add: consistent_def)
  then show "\<exists>h. Rollover h \<in> set ys"
    by (rule calls_fresh_rollover_between)
next
  from cycle_calls [of items e t s symbols] obtain calls
    where pc: "pass_calls (set items) (rollover_check e t s) calls (fst (cycle e symbols items t s))" ..
  then have fresh: "calls_fresh (alerted_symbols (rollover_check e t s)) calls"
    and tr: "trace (fst (cycle e symbols items t s)) = trace (rollover_check e t s) @ calls"
    by (simp_all add: pass_calls_def)
  have "Called a ts hs out \<notin> set calls"
    if "a \<in> alerted_symbols (rollover_check e t s)" for a ts hs out
    using fresh pass_calls_no_rollover [OF pc] that by (rule calls_fresh_not_called)
  with tr
  show "\<exists>calls. trace (fst (cycle e symbols items t s)) = trace (rollover_check e t s) @ calls
         \<and> (\<forall>a\<in>alerted_symbols (rollover_check e t s). \<forall>ts hs out.
               Called a ts hs out \<notin> set calls)"
    by blast
qed

text \<open>
  Three cycles with the symbols A and B: A gives a BUY in the first, is skipped in the
  second, and is called again in the third, which observes the next day.
\<close>

lemma three_cycles_trace:
  "trace (signal_detection alert_first [''A'', ''B''] (at_time 9 0)
            [at_time 9 30, at_time 9 31, next_day 9 30]) =
     [Called ''A'' (5 / 100) [''2025-08-15''] (Returned (Some BUY)),
      Called ''B'' (5 / 100) [''2025-08-15''] (Returned None),
      Called ''B'' (5 / 100) [''2025-08-15''] (Returned None),
      Rollover [''2025-08-15''],
      Called ''A'' (5 / 100) [''2025-08-15''] (Returned (Some BUY)),
      Called ''B'' (5 / 100) [''2025-08-15''] (Returned None)]"
  by (simp add: signal_detection_def symbol_data_def cycle_def rollover_check_def call_check_def
      alert_first_def at_time_def next_day_def Let_def)

theorem no_check_while_alerted_witness:
  "trace (signal_detection alert_first [''A'', ''B''] (at_time 9 0)
            [at_time 9 30, at_time 9 31, next_day 9 30]) =
     [] @ Called ''A'' (5 / 100) [''2025-08-15''] (Returned (Some BUY))
       # [Called ''B'' (5 / 100) [''2025-08-15''] (Returned None),
          Called ''B'' (5 / 100) [''2025-08-15''] (Returned None),
          Rollover [''2025-08-15'']]
       @ Called ''A'' (5 / 100) [''2025-08-15''] (Returned (Some BUY))
       # [Called ''B'' (5 / 100) [''2025-08-15''] (Returned None)]
   \<and> (\<exists>h. Rollover h \<in> set [Called ''B'' (5 / 100) [''2025-08-15''] (Returned None),
          Called ''B'' (5 / 100) [''2025-08-15''] (Returned None),
          Rollover [''2025-08-15'']])"
proof -
  have t: "trace (signal_detection alert_first [''A'', ''B''] (at_time 9 0)
            [at_time 9 30, at_time 9 31, next_day 9 30]) =
     [] @ Called ''A'' (5 / 100) [''2025-08-15''] (Returned (Some BUY))
       # [Called ''B'' (5 / 100) [''2025-08-15''] (Returned None),
          Called ''B'' (5 / 100) [''2025-08-15''] (Returned None),
          Rollover [''2025-08-15'']]
       @ Called ''A'' (5 / 100) [''2025-08-15''] (Returned (Some BUY))
       # [Called ''B'' (5 / 100) [''2025-08-15''] (Returned None)]"
    by (simp add: three_cycles_trace)
  from no_check_while_alerted [THEN conjunct1, THEN mp, OF t] t show ?thesis
    by blast
qed

text \<open>
  Claim C7: a cycle starts with the date check, whatever the time of day. When the
  observed date is after the stored one, the cycle appends the rollover with the
  holidays fetched again and only then its calls, every call gets the new holidays,
  and the alerted set after the cycle holds the symbols alerted in this cycle only.
  When it is not after, the cycle appends calls only and the alerted set keeps every
  symbol it had.
\<close>

theorem rollover_check_at_top_of_cycle:
  assumes "s' = fst (cycle e symbols items t s)"
    and "hs' = get_holidays e (length (trace s))"
  shows "(current_date s < date_of t \<longrightarrow>
           (\<exists>calls. trace s' = trace s @ Rollover hs' # calls
              \<and> (\<forall>ev\<in>set calls. \<exists>sy ts out. ev = Called sy ts hs' out)
              \<and> alerted_symbols s' = fold alerted_step calls {}
              \<and> holidays s' = hs' \<and> current_date s' = date_of t))
       \<and> (\<not> current_date s < date_of t \<longrightarrow>
           (\<exists>calls. trace s' = trace s @ calls
              \<and> (\<forall>ev\<in>set calls. \<exists>sy ts out. ev = Called sy ts (holidays s) out)
              \<and> alerted_symbols s \<subseteq> alerted_symbols s'
              \<and> holidays s' = holidays s \<and> current_date s' = current_date s))"
proof -
  from cycle_calls [of items e t s symbols] assms(1) obtain calls
    where pc: "pass_calls (set items) (rollover_check e t s) calls s'" by auto
  show ?thesis
  proof (cases "current_date s < date_of t")
    case True
    then have r: "rollover_check e t s = s\<lparr>alerted_symbols := {}, current_date := date_of t,
                 holidays := hs', trace := trace s @ [Rollover hs']\<rparr>"
      by (simp add: rollover_check_def Let_def assms(2))
    from pc have "trace s' = trace s @ Rollover hs' # calls
              \<and> (\<forall>ev\<in>set calls. \<exists>sy ts out. ev = Called sy ts hs' out)
              \<and> alerted_symbols s' = fold alerted_step calls {}
              \<and> holidays s' = hs' \<and> current_date s' = date_of t"
      unfolding r pass_calls_def by auto
    with True show ?thesis by blast
  next
    case False
    then have r: "rollover_check e t s = s"
      by (simp add: rollover_check_def)
    from pass_calls_no_rollover [OF pc] have "\<forall>h. Rollover h \<notin> set calls" .
    then have "\<forall>sy\<in>alerted_symbols s. sy \<in> fold alerted_step calls (alerted_symbols s)"
      by (auto intro: alerted_kept)
    with pc have "trace s' = trace s @ calls
              \<and> (\<forall>ev\<in>set calls. \<exists>sy ts out. ev = Called sy ts (holidays s) out)
              \<and> alerted_symbols s \<subseteq> alerted_symbols s'
              \<and> holidays s' = holidays s \<and> current_date s' = current_date s"
      unfolding r pass_calls_def by auto
    with False show ?thesis by blast
  qed
qed

text \<open>
  The scenario of the specification: A and B are alerted on day D. The first cycle on
  day D+1 fetches the holidays again and then calls both (A is alerted again); before
  9:30 on day D+1 the set is cleared all the same and nothing is called; a cycle on
  day D calls neither.
\<close>

lemma rollover_cycle_example:
  "fst (cycle alert_first [''A'', ''B''] (symbol_data [''A'', ''B'']) (next_day 9 30) alerted_session) =
     \<lparr>alerted_symbols = {''A''}, current_date = 739464, holidays = [''2025-08-15''],
      trace = [Rollover [''2025-08-15''],
               Called ''A'' (5 / 100) [''2025-08-15''] (Returned (Some BUY)),
               Called ''B'' (5 / 100) [''2025-08-15''] (Returned None)]\<rparr>"
  by (simp add: symbol_data_def cycle_def rollover_check_def call_check_def
      alert_first_def alerted_session_def next_day_def Let_def)

lemma same_day_cycle_example:
  "fst (cycle alert_first [''A'', ''B''] (symbol_data [''A'', ''B'']) (at_time 9 30) alerted_session) =
     alerted_session"
  by (simp add: symbol_data_def cycle_def rollover_check_def call_check_def
      alert_first_def alerted_session_def at_time_def Let_def)

lemma waiting_cycle_example:
  "fst (cycle alert_first [''A'', ''B''] (symbol_data [''A'', ''B'']) (next_day 8 0) alerted_session) =
     \<lparr>alerted_symbols = {}, current_date = 739464, holidays = [''2025-08-15''],
      trace = [Rollover [''2025-08-15'']]\<rparr>"
  by (simp add: symbol_data_def cycle_def rollover_check_def
      alert_first_def alerted_session_def next_day_def Let_def)

theorem rollover_check_at_top_of_cycle_witness:
  "current_date alerted_session < date_of (next_day 9 30)
   \<and> alerted_symbols alerted_session = {''A'', ''B''}
   \<and> trace (fst (cycle alert_first [''A'', ''B''] (symbol_data [''A'', ''B'']) (next_day 9 30)
        alerted_session))
       = [Rollover [''2025-08-15''],
          Called ''A'' (5 / 100) [''2025-08-15''] (Returned (Some BUY)),
          Called ''B'' (5 / 100) [''2025-08-15''] (Returned None)]
   \<and> alerted_symbols (fst (cycle alert_first [''A'', ''B''] (symbol_data [''A'', ''B''])
        (next_day 9 30) alerted_session)) = {''A''}
   \<and> trace (fst (cycle alert_first [''A'', ''B''] (symbol_data [''A'', ''B'']) (next_day 8 0)
        alerted_session)) = [Rollover [''2025-08-15'']]
   \<and> alerted_symbols (fst (cycle alert_first [''A'', ''B''] (symbol_data [''A'', ''B''])
        (next_day 8 0) alerted_session)) = {}
   \<and> \<not> current_date alerted_session < date_of (at_time 9 30)
   \<and> trace (fst (cycle alert_first [''A'', ''B''] (symbol_data [''A'', ''B'']) (at_time 9 30)
        alerted_session)) = []
   \<and> alerted_symbols (fst (cycle alert_first [''A'', ''B''] (symbol_data [''A'', ''B''])
        (at_time 9 30) alerted_session)) = {''A'', ''B''}"
  using rollover_check_at_top_of_cycle [where e = alert_first and symbols = "[''A'', ''B'']"
      and items = "symbol_data [''A'', ''B'']" and t = "next_day 9 30" and s = alerted_session,
      OF refl refl]
    rollover_check_at_top_of_cycle [where e = alert_first and symbols = "[''A'', ''B'']"
      and items = "symbol_data [''A'', ''B'']" and t = "next_day 8 0" and s = alerted_session,
      OF refl refl]
    rollover_check_at_top_of_cycle [where e = alert_first and symbols = "[''A'', ''B'']"
      and items = "symbol_data [''A'', ''B'']" and t = "at_time 9 30" and s = alerted_session,
      OF refl refl]
  by (simp add: rollover_cycle_example same_day_cycle_example waiting_cycle_example)
     (simp add: alerted_session_def next_day_def at_time_def)

lemma from_items_rollover_check:
  "\<forall>ev\<in>set (trace s). from_items its ev \<Longrightarrow>
     \<forall>ev\<in>set (trace (rollover_check e t s)). from_items its ev"
  by (auto simp: rollover_check_def Let_def from_items_def)

lemma from_items_pass_calls:
  "\<forall>ev\<in>set (trace s). from_items its ev \<Longrightarrow> pass_calls its s calls s' \<Longrightarrow>
     \<forall>ev\<in>set (trace s'). from_items its ev"
  by (fastforce simp: pass_calls_def from_items_def)

lemma from_items_cycle:
  assumes "\<forall>ev\<in>set (trace s). from_items (set items) ev"
  shows "\<forall>ev\<in>set (trace (fst (cycle e symbols items t s))). from_items (set items) ev"
proof -
  from cycle_calls [of items e t s symbols] obtain calls
    where "pass_calls (set items) (rollover_check e t s) calls (fst (cycle e symbols items t s))" ..
  with from_items_rollover_check [OF assms, of e t] show ?thesis
    by (rule from_items_pass_calls)
qed

lemma from_items_detection_loop:
  "\<forall>ev\<in>set (trace s). from_items (set items) ev \<Longrightarrow>
     \<forall>ev\<in>set (trace (detection_loop e symbols items readings s)). from_items (set items) ev"
proof (induction readings arbitrary: s)
  case Nil
  then show ?case by simp
next
  case (Cons t readings)
  obtain s1 b where c: "cycle e symbols items t s = (s1, b)"
    by (cases "cycle e symbols items t s")
  with from_items_cycle [OF Cons.prems, of e symbols t]
  have "\<forall>ev\<in>set (trace s1). from_items (set items) ev" by simp
  with Cons.IH [of s1] c show ?case by (cases b) simp_all
qed

lemma save_two_futures:
  "save_symbols two_futures = ''ACC31JUL25FUT'' @ [CHR 0x0A] @ ''MCX31JUL25FUT'' @ [CHR 0x0A]"
  by (simp add: save_symbols_def two_futures_def)

lemma load_two_futures:
  "load_symbols (save_symbols two_futures) = [''ACC31JUL25FUT'', ''MCX31JUL25FUT'']"
  by (simp add: save_two_futures load_symbols_def strip_def is_space_def)

text \<open>
  Claim C8 as stated, that each instrument carries a tick size from the external list,
  fails: the file holds symbols only, and a future listed with a tick size of 0.10 is
  evaluated with 0.05.
\<close>

theorem tick_size_from_list_counterexample:
  "map fut_tick_size two_futures = [5 / 100, 1 / 10]
   \<and> load_symbols (save_symbols two_futures) = [''ACC31JUL25FUT'', ''MCX31JUL25FUT'']
   \<and> map tick_size (symbol_data (load_symbols (save_symbols two_futures))) = [5 / 100, 5 / 100]
   \<and> map tick_size (symbol_data (load_symbols (save_symbols two_futures)))
        \<noteq> map fut_tick_size two_futures"
  by (simp add: load_two_futures symbol_data_def) (simp add: two_futures_def)

text \<open>
  Claim C8, amended: the instrument list is an ordered list of symbols only (the file
  written by \<^verbatim>\<open>save_symbols\<close> does not depend on the tick sizes), and every
  instrument the scheduler evaluates carries the tick size 0.05, a constant shared by
  all instruments.
\<close>

theorem tick_size_is_constant:
  "map symbol (symbol_data symbols) = symbols
   \<and> map tick_size (symbol_data symbols) = replicate (length symbols) (5 / 100)
   \<and> list_all (\<lambda>ev. case ev of Called sy ts hs out \<Rightarrow> ts = 5 / 100 \<and> sy \<in> set symbols
                     | Rollover h \<Rightarrow> True)
       (trace (signal_detection e symbols start readings))
   \<and> save_symbols (map (fut_tick_size_update f) futures_list) = save_symbols futures_list"
proof -
  have a: "map symbol (symbol_data symbols) = symbols"
    by (simp add: symbol_data_def comp_def)
  have b: "map tick_size (symbol_data symbols) = replicate (length symbols) (5 / 100)"
    by (simp add: symbol_data_def comp_def map_replicate_const)
  have "\<forall>ev\<in>set (trace (signal_detection e symbols start readings)).
          from_items (set (symbol_data symbols)) ev"
    unfolding signal_detection_def by (rule from_items_detection_loop) simp
  then have c: "list_all (\<lambda>ev. case ev of Called sy ts hs out \<Rightarrow> ts = 5 / 100 \<and> sy \<in> set symbols
                     | Rollover h \<Rightarrow> True)
       (trace (signal_detection e symbols start readings))"
    by (auto simp: list_all_iff from_items_def symbol_data_def split: event.splits)
  have d: "save_symbols (map (fut_tick_size_update f) futures_list) = save_symbols futures_list"
    by (simp add: save_symbols_def comp_def)
  from a b c d show ?thesis by blast
qed

theorem tick_size_is_constant_witness:
  "map tick_size (symbol_data [''A'', ''B'']) = [5 / 100, 5 / 100]
   \<and> list_all (\<lambda>ev. case ev of Called sy ts hs out \<Rightarrow> ts = 5 / 100 \<and> sy \<in> set [''A'', ''B'']
                     | Rollover h \<Rightarrow> True)
       (trace (signal_detection alert_first [''A'', ''B''] (at_time 9 0)
            [at_time 9 30, at_time 9 31, next_day 9 30]))"
  using tick_size_is_constant [of "[''A'', ''B'']" alert_first "at_time 9 0"
      "[at_time 9 30, at_time 9 31, next_day 9 30]"]
  by (simp add: numeral_2_eq_2)

subsection \<open>The monitoring window\<close>

text \<open>
  Claim C9 as stated, that a call outside the window goes on to the signal evaluation
  instead of skipping the instrument, fails before 9:30: the point of control is
  computed, then \<^verbatim>\<open>get_15min_candles\<close> returns nothing and the instrument is skipped,
  with data for which a call at 9:35 gives a BUY.
\<close>

theorem window_check_counterexample:
  "\<not> in_monitoring_window (now_check (all_at (at_time 9 0)))
   \<and> check_trading_conditions (market_gateway fifteen_days) (all_at (at_time 9 0))
        ''ACC31JUL25FUT'' (5 / 100) None = ([Outside_monitoring_window], Inr None)
   \<and> check_trading_conditions (market_gateway fifteen_days) (all_at (at_time 9 35))
        ''ACC31JUL25FUT'' (5 / 100) None = ([], Inr (Some BUY))"
  by (simp add: check_example) (simp add: in_monitoring_window_def all_at_def at_time_def)

text \<open>
  Claim C9, amended: outside the window the window check only logs; the result is the
  one that any other reading of the clock at the check would give. The function goes
  on to the point of control and, when the four fetches succeed, to the signal
  evaluation; when \<^verbatim>\<open>get_15min_candles\<close> reads a time before 9:30 it returns nothing
  and the call gives no signal.
\<close>

theorem window_check_only_logs:
  assumes "\<not> in_monitoring_window (now_check clk)"
  shows "fst (check_trading_conditions gw clk sy ts hs) = [Outside_monitoring_window]
     \<and> snd (check_trading_conditions gw clk sy ts hs)
         = snd (check_trading_conditions gw (clk\<lparr>now_check := t\<rparr>) sy ts hs)
     \<and> (calculate_poc gw (now_poc clk) sy ts hs = Inr (Some poc)
          \<and> get_15min_candles gw (now_candles clk) sy = Some candles \<and> 2 \<le> length candles
          \<and> calculate_atr gw (now_atr clk) sy = Inr (Some atr)
          \<and> get_ltp gw sy = Some ltp
        \<longrightarrow> snd (check_trading_conditions gw clk sy ts hs)
              = Inr (breakout_signal poc atr (c_open (candles ! 0)) (c_high (candles ! 0))
                       (c_low (candles ! 0)) ltp))
     \<and> (hour (now_candles clk) < 9 \<or> (hour (now_candles clk) = 9 \<and> minute (now_candles clk) < 30)
        \<longrightarrow> get_15min_candles gw (now_candles clk) sy = None
            \<and> (\<forall>sg. snd (check_trading_conditions gw clk sy ts hs) \<noteq> Inr (Some sg)))"
proof (intro conjI impI)
  from assms show "fst (check_trading_conditions gw clk sy ts hs) = [Outside_monitoring_window]"
    by (simp add: check_trading_conditions_def Let_def)
  show "snd (check_trading_conditions gw clk sy ts hs)
         = snd (check_trading_conditions gw (clk\<lparr>now_check := t\<rparr>) sy ts hs)"
    by (simp add: check_trading_conditions_def Let_def split: sum.splits option.splits)
next
  assume "calculate_poc gw (now_poc clk) sy ts hs = Inr (Some poc)
          \<and> get_15min_candles gw (now_candles clk) sy = Some candles \<and> 2 \<le> length candles
          \<and> calculate_atr gw (now_atr clk) sy = Inr (Some atr)
          \<and> get_ltp gw sy = Some ltp"
  then show "snd (check_trading_conditions gw clk sy ts hs)
              = Inr (breakout_signal poc atr (c_open (candles ! 0)) (c_high (candles ! 0))
                       (c_low (candles ! 0)) ltp)"
    by (simp add: check_trading_conditions_def Let_def)
next
  assume early: "hour (now_candles clk) < 9
                 \<or> (hour (now_candles clk) = 9 \<and> minute (now_candles clk) < 30)"
  then show none: "get_15min_candles gw (now_candles clk) sy = None"
    by (auto simp: get_15min_candles_def Let_def)
  then show "\<forall>sg. snd (check_trading_conditions gw clk sy ts hs) \<noteq> Inr (Some sg)"
    by (simp add: check_trading_conditions_def Let_def split: sum.splits option.splits)
qed

text \<open>A call at 10:00, after the window: the line is logged and the BUY is given.\<close>

theorem window_check_only_logs_witness:
  "\<not> in_monitoring_window (now_check (all_at (at_time 10 0)))
   \<and> check_trading_conditions (market_gateway fifteen_days) (all_at (at_time 10 0))
        ''ACC31JUL25FUT'' (5 / 100) None = ([Outside_monitoring_window], Inr (Some BUY))
   \<and> snd (check_trading_conditions (market_gateway fifteen_days)
        ((all_at (at_time 10 0))\<lparr>now_check := at_time 9 35\<rparr>)
        ''ACC31JUL25FUT'' (5 / 100) None) = Inr (Some BUY)"
proof -
  have w: "\<not> in_monitoring_window (now_check (all_at (at_time 10 0)))"
    by (simp add: in_monitoring_window_def all_at_def at_time_def)
  have c: "check_trading_conditions (market_gateway fifteen_days) (all_at (at_time 10 0))
        ''ACC31JUL25FUT'' (5 / 100) None = ([Outside_monitoring_window], Inr (Some BUY))"
    by (simp add: check_example) (simp add: in_monitoring_window_def at_time_def)
  from window_check_only_logs [OF w, of "market_gateway fifteen_days" "''ACC31JUL25FUT''"
      "5 / 100" None "at_time 9 35"] w c
  show ?thesis by simp
qed

end
